theory Spec2Isabelle
  imports Complex_Main
begin

section \<open>The sine plotter of qt\_gui.py\<close>

text \<open>
  The program is one widget class, \<open>SineWavePlotter\<close>. It owns a float \<open>self.x\<close>
  (the right end of the plotted interval) and four display surfaces: a slider, a line
  edit, a result label and a Matplotlib axes. Three handlers change \<open>self.x\<close>:
  \<open>_on_slider_changed\<close>, \<open>_on_input_field_changed\<close> and \<open>_on_reset_clicked\<close>.

  Python floats are modelled as exact reals, extended by the three non-finite values
  that \<open>float()\<close> can return from text. Binary rounding is therefore not part of
  the model; every arithmetic step below is the exact one. In particular a decimal
  literal denotes its exact value (it is not rounded to the nearest double, and it neither
  overflows to infinity nor underflows to zero), and the default bound is the real number
  \<open>4 * pi\<close>, not the double \<open>4 * np.pi\<close>. What the model says about control flow,
  ticks and displayed digits is what the program does wherever no rounding of the last
  bit of a double decides it; a property that such a rounding decides, like an exact
  tolerance on a value that was parsed from text, is outside the model and is not stated
  here.
\<close>

subsection \<open>Floats, exceptions and conversions\<close>

datatype pyfloat = Fin real | PInf | NInf | NaN

datatype exn = ValueError | OverflowError

text \<open>Python's \<open>int(f)\<close> on a finite float drops the fraction (rounds toward zero).\<close>

definition trunc :: "real \<Rightarrow> int" where
  "trunc r = (if 0 \<le> r then \<lfloor>r\<rfloor> else \<lceil>r\<rceil>)"

fun py_int :: "pyfloat \<Rightarrow> exn + int" where
  "py_int (Fin r) = Inr (trunc r)"
| "py_int PInf = Inl OverflowError"
| "py_int NInf = Inl OverflowError"
| "py_int NaN = Inl ValueError"

text \<open>A float times a Python int, as in \<open>self.x * self.SLIDER_SCALE_FACTOR\<close>.\<close>

fun times_int :: "pyfloat \<Rightarrow> int \<Rightarrow> pyfloat" where
  "times_int (Fin r) k = Fin (r * of_int k)"
| "times_int PInf k = (if 0 < k then PInf else if k < 0 then NInf else NaN)"
| "times_int NInf k = (if 0 < k then NInf else if k < 0 then PInf else NaN)"
| "times_int NaN k = NaN"

text \<open>The test \<open>val > 0\<close>; every comparison with NaN is false.\<close>

fun py_gt0 :: "pyfloat \<Rightarrow> bool" where
  "py_gt0 (Fin r) = (0 < r)"
| "py_gt0 PInf = True"
| "py_gt0 NInf = False"
| "py_gt0 NaN = False"

text \<open>\<open>np.sin\<close>: the sine of a non-finite argument is NaN.\<close>

fun py_sin :: "pyfloat \<Rightarrow> pyfloat" where
  "py_sin (Fin r) = Fin (sin r)"
| "py_sin PInf = NaN"
| "py_sin NInf = NaN"
| "py_sin NaN = NaN"

subsection \<open>Fixed-point formatting: the format specs \<open>.2f\<close> and \<open>.4f\<close>\<close>

text \<open>
  Formatting rounds the exact value to the requested number of decimals, a tie going to
  the even neighbour, and keeps the sign of a negative value even when the digits are
  all zero.
\<close>

definition round_half_even :: "real \<Rightarrow> int" where
  "round_half_even r =
     (let f = \<lfloor>r\<rfloor>; d = r - of_int f
      in if d < 1 / 2 then f else if 1 / 2 < d then f + 1 else if even f then f else f + 1)"

definition digit_char :: "nat \<Rightarrow> char" where
  "digit_char d = char_of (48 + d)"

fun show_nat :: "nat \<Rightarrow> string" where
  "show_nat n = (if n < 10 then [digit_char n] else show_nat (n div 10) @ [digit_char (n mod 10)])"

declare show_nat.simps [simp del]

definition zfill :: "nat \<Rightarrow> string \<Rightarrow> string" where
  "zfill w ds = replicate (w - length ds) (CHR ''0'') @ ds"

fun fmt_f :: "nat \<Rightarrow> pyfloat \<Rightarrow> string" where
  "fmt_f p (Fin r) =
     (let n = nat (round_half_even (\<bar>r\<bar> * 10 ^ p));
          body = show_nat (n div 10 ^ p) @
                 (if p = 0 then [] else CHR ''.'' # zfill p (show_nat (n mod 10 ^ p)))
      in if r < 0 then CHR ''-'' # body else body)"
| "fmt_f p PInf = ''inf''"
| "fmt_f p NInf = ''-inf''"
| "fmt_f p NaN = ''nan''"

declare fmt_f.simps [simp del]

subsection \<open>Parsing: \<open>float(text)\<close>\<close>

text \<open>
  \<open>float\<close> strips surrounding whitespace, accepts single underscores between digits,
  an optional sign, and then either one of the spellings \<open>inf\<close>, \<open>infinity\<close>,
  \<open>nan\<close> (in any letter case) or a decimal literal: digits with an optional point and an
  optional exponent, at least one digit in the mantissa. Anything else raises
  \<open>ValueError\<close>. A literal denotes its exact value here. Characters are the 256
  code points of Latin-1; of these \<open>float\<close> strips tab, line feed, vertical tab, form
  feed, carriage return, space, and the two non-ASCII spaces 0x85 and 0xA0.
\<close>

definition is_space :: "char \<Rightarrow> bool" where
  "is_space c = (of_char c \<in> {9, 10, 11, 12, 13, 32, 133, 160 :: nat})"

definition is_digit :: "char \<Rightarrow> bool" where
  "is_digit c = (48 \<le> (of_char c :: nat) \<and> (of_char c :: nat) \<le> 57)"

definition digit_val :: "char \<Rightarrow> nat" where
  "digit_val c = of_char c - 48"

definition nat_of_digits :: "string \<Rightarrow> nat" where
  "nat_of_digits ds = foldl (\<lambda>a c. 10 * a + digit_val c) 0 ds"

definition strip :: "string \<Rightarrow> string" where
  "strip s = rev (dropWhile is_space (rev (dropWhile is_space s)))"

definition lower :: "char \<Rightarrow> char" where
  "lower c = (if 65 \<le> (of_char c :: nat) \<and> (of_char c :: nat) \<le> 90
              then char_of (of_char c + 32 :: nat) else c)"

text \<open>
  An underscore must have a digit on both sides; the scan carries the previous
  character and drops the underscores it accepts.
\<close>

fun drop_underscores :: "char \<Rightarrow> string \<Rightarrow> string option" where
  "drop_underscores prev [] = (if prev = CHR ''_'' then None else Some [])"
| "drop_underscores prev (c # cs) =
     (if c = CHR ''_'' then (if is_digit prev then drop_underscores c cs else None)
      else if prev = CHR ''_'' \<and> \<not> is_digit c then None
      else map_option ((#) c) (drop_underscores c cs))"

fun split_sign :: "string \<Rightarrow> bool \<times> string" where
  "split_sign [] = (False, [])"
| "split_sign (c # cs) =
     (if c = CHR ''-'' then (True, cs) else if c = CHR ''+'' then (False, cs) else (False, c # cs))"

text \<open>The mantissa: its digits read as one natural number, and how many follow the point.\<close>

definition parse_mantissa :: "string \<Rightarrow> (nat \<times> nat) option" where
  "parse_mantissa m =
     (let ip = takeWhile is_digit m
      in case dropWhile is_digit m of
           [] \<Rightarrow> (if ip = [] then None else Some (nat_of_digits ip, 0))
         | c # fp \<Rightarrow>
             (if c = CHR ''.'' \<and> list_all is_digit fp \<and> (ip \<noteq> [] \<or> fp \<noteq> [])
              then Some (nat_of_digits (ip @ fp), length fp) else None))"

definition parse_exponent :: "string \<Rightarrow> int option" where
  "parse_exponent e =
     (case split_sign e of
        (neg, ds) \<Rightarrow>
          (if ds \<noteq> [] \<and> list_all is_digit ds
           then Some (if neg then - int (nat_of_digits ds) else int (nat_of_digits ds))
           else None))"

definition not_exp_mark :: "char \<Rightarrow> bool" where
  "not_exp_mark c = (c \<noteq> CHR ''e'' \<and> c \<noteq> CHR ''E'')"

definition parse_decimal :: "string \<Rightarrow> real option" where
  "parse_decimal s =
     (case parse_mantissa (takeWhile not_exp_mark s) of
        None \<Rightarrow> None
      | Some (n, k) \<Rightarrow>
          (case dropWhile not_exp_mark s of
             [] \<Rightarrow> Some (real n / 10 ^ k)
           | c # e \<Rightarrow>
               (case parse_exponent e of
                  None \<Rightarrow> None
                | Some ex \<Rightarrow>
                    Some (if 0 \<le> ex then real n / 10 ^ k * 10 ^ nat ex
                          else real n / 10 ^ k / 10 ^ nat (- ex)))))"

definition py_float :: "string \<Rightarrow> exn + pyfloat" where
  "py_float raw =
     (case drop_underscores (CHR 0x00) (strip raw) of
        None \<Rightarrow> Inl ValueError
      | Some t \<Rightarrow>
          (case split_sign t of
             (neg, body) \<Rightarrow>
               (if map lower body = ''inf'' \<or> map lower body = ''infinity''
                then Inr (if neg then NInf else PInf)
                else if map lower body = ''nan'' then Inr NaN
                else (case parse_decimal body of
                        None \<Rightarrow> Inl ValueError
                      | Some r \<Rightarrow> Inr (Fin (if neg then - r else r))))))"

subsection \<open>The widget state\<close>

text \<open>
  \<open>self_x\<close> is \<open>self.x\<close>; \<open>slider\<close> is the tick held by the \<open>QSlider\<close>;
  \<open>input_field\<close> and \<open>result_label\<close> are the texts of the line edit and the label;
  the last three fields are what the axes currently show.
\<close>

record gui =
  self_x :: pyfloat
  slider :: int
  input_field :: string
  result_label :: string
  plot_x :: "pyfloat list"
  plot_y :: "pyfloat list"
  plot_title :: string

definition X_MAX_DEFAULT :: real where
  "X_MAX_DEFAULT = 4 * pi"

definition SLIDER_SCALE_FACTOR :: int where
  "SLIDER_SCALE_FACTOR = 10"

definition SLIDER_MAX :: int where
  "SLIDER_MAX = trunc (X_MAX_DEFAULT * of_int SLIDER_SCALE_FACTOR * 2)"

text \<open>
  \<open>setRange(1, SLIDER_MAX)\<close> keeps the maximum at or above the minimum, and the slider
  confines every tick it is given to that range.
\<close>

definition bound :: "int \<Rightarrow> int" where
  "bound v = max 1 (min (max 1 SLIDER_MAX) v)"

text \<open>The binding hands \<open>setValue\<close> a C \<open>int\<close>; a Python int outside its range raises.\<close>

definition fits_c_int :: "int \<Rightarrow> bool" where
  "fits_c_int v = (- (2 ^ 31) \<le> v \<and> v < 2 ^ 31)"

subsection \<open>Redrawing: \<open>update_plot\<close>\<close>

text \<open>
  \<open>np.linspace(start, stop, num)\<close> returns \<open>num\<close> evenly spaced samples from
  \<open>start\<close> to \<open>stop\<close>, both included. With a non-finite \<open>stop\<close> the step is
  non-finite too, and the last sample is \<open>stop\<close>.
\<close>

fun linspace :: "real \<Rightarrow> pyfloat \<Rightarrow> nat \<Rightarrow> pyfloat list" where
  "linspace start (Fin stop) num =
     map (\<lambda>i. Fin (start + real i * ((stop - start) / real (num - 1)))) [0..<num]"
| "linspace start v num = map (\<lambda>i. times_int v (int i)) [0..<num - 1] @ [v]"

declare linspace.simps [simp del]

definition update_plot :: "gui \<Rightarrow> gui" where
  "update_plot s =
     (let x_vals = linspace 0 (self_x s) 1000;
          y_vals = map py_sin x_vals
      in s\<lparr>plot_x := x_vals, plot_y := y_vals,
            plot_title := ''sin(x): 0 to '' @ fmt_f 2 (self_x s)\<rparr>)"

subsection \<open>The slider signal and \<open>_update_ui_values\<close>\<close>

text \<open>
  \<open>_connect_signals\<close> connects \<open>slider.valueChanged\<close> to \<open>_on_slider_changed\<close>.
  \<open>QSlider.setValue\<close> confines the tick to the range, returns at once when the slider
  already holds it, and otherwise stores it and emits \<open>valueChanged\<close>; the connected
  slot runs before \<open>setValue\<close> returns. So \<open>_update_ui_values\<close>, which calls
  \<open>setValue\<close>, can re-enter \<open>_on_slider_changed\<close>, which calls
  \<open>_update_ui_values\<close> again: the three are mutually recursive. \<open>setText\<close> on the
  line edit and on the label emits nothing that the program listens to.

  Each function returns the exception that escaped it, if any, with the state it left.
\<close>

definition set_texts :: "gui \<Rightarrow> gui" where
  "set_texts s =
     s\<lparr>input_field := fmt_f 2 (self_x s),
       result_label := ''sin('' @ fmt_f 2 (self_x s) @ '') = '' @ fmt_f 4 (py_sin (self_x s))\<rparr>"

text \<open>
  The recursion ends: a slot entered from \<open>setValue\<close> sets \<open>self.x\<close> to a tenth of
  the tick the slider now holds, so the \<open>setValue\<close> it reaches asks for that same tick.
  \<open>pending s\<close> says that \<open>_update_ui_values\<close> would move the slider in \<open>s\<close>.
\<close>

definition pending :: "gui \<Rightarrow> bool" where
  "pending s =
     (case py_int (times_int (self_x s) SLIDER_SCALE_FACTOR) of
        Inl e \<Rightarrow> False
      | Inr v \<Rightarrow> bound v \<noteq> slider s)"

function setValue :: "int \<Rightarrow> gui \<Rightarrow> exn option \<times> gui"
  and on_slider_changed :: "int \<Rightarrow> gui \<Rightarrow> exn option \<times> gui"
  and update_ui_values :: "gui \<Rightarrow> exn option \<times> gui"
where
  "setValue v s =
     (if \<not> fits_c_int v then (Some OverflowError, s)
      else if bound v = slider s then (None, s)
      else on_slider_changed (bound v) (s\<lparr>slider := bound v\<rparr>))"
| "on_slider_changed v s =
     (case update_ui_values (s\<lparr>self_x := Fin (of_int v / of_int SLIDER_SCALE_FACTOR)\<rparr>) of
        (Some e, s') \<Rightarrow> (Some e, s')
      | (None, s') \<Rightarrow> (None, update_plot s'))"
| "update_ui_values s =
     (case py_int (times_int (self_x s) SLIDER_SCALE_FACTOR) of
        Inl e \<Rightarrow> (Some e, s)
      | Inr v \<Rightarrow>
          (case setValue v s of
             (Some e, s') \<Rightarrow> (Some e, s')
           | (None, s') \<Rightarrow> (None, set_texts s')))"
  by pat_completeness auto

termination
  by (relation "measure (\<lambda>a. case a of
         Inl (v, s) \<Rightarrow> (if bound v = slider s then 0 else 4)
       | Inr (Inl (v, s)) \<Rightarrow> (if bound v = slider s then 2 else 6)
       | Inr (Inr s) \<Rightarrow> (if pending s then 5 else 1))")
     (auto simp: bound_def pending_def SLIDER_SCALE_FACTOR_def trunc_def split: sum.splits)

declare setValue.simps [simp del] on_slider_changed.simps [simp del]
  update_ui_values.simps [simp del]

subsection \<open>The other two handlers\<close>

text \<open>
  In \<open>_on_input_field_changed\<close> the \<open>try\<close> block holds the parse, the test and
  both refresh calls; the \<open>except\<close> clause catches \<open>ValueError\<close> only and then calls
  \<open>_update_ui_values\<close>. There is no \<open>else\<close> to the test \<open>val > 0\<close>.
\<close>

definition try_block :: "gui \<Rightarrow> exn option \<times> gui" where
  "try_block s =
     (case py_float (input_field s) of
        Inl e \<Rightarrow> (Some e, s)
      | Inr val \<Rightarrow>
          (if py_gt0 val
           then (case update_ui_values (s\<lparr>self_x := val\<rparr>) of
                   (Some e, s') \<Rightarrow> (Some e, s')
                 | (None, s') \<Rightarrow> (None, update_plot s'))
           else (None, s)))"

definition on_input_field_changed :: "gui \<Rightarrow> exn option \<times> gui" where
  "on_input_field_changed s =
     (case try_block s of
        (Some ValueError, s') \<Rightarrow> update_ui_values s'
      | r \<Rightarrow> r)"

definition on_reset_clicked :: "gui \<Rightarrow> exn option \<times> gui" where
  "on_reset_clicked s =
     (case update_ui_values (s\<lparr>self_x := Fin X_MAX_DEFAULT\<rparr>) of
        (Some e, s') \<Rightarrow> (Some e, s')
      | (None, s') \<Rightarrow> (None, update_plot s'))"

subsection \<open>Start-up and user events\<close>

text \<open>
  \<open>__init__\<close> sets \<open>self.x\<close>, builds the widgets from it (the slider's signal is not
  connected yet, so its first \<open>setValue\<close> only stores the confined tick), connects the
  signals and draws the plot.
\<close>

definition init :: gui where
  "init = update_plot
     \<lparr>self_x = Fin X_MAX_DEFAULT,
      slider = bound (trunc (X_MAX_DEFAULT * of_int SLIDER_SCALE_FACTOR)),
      input_field = fmt_f 2 (Fin X_MAX_DEFAULT),
      result_label = ''sin('' @ fmt_f 2 (Fin X_MAX_DEFAULT) @ '') = ''
                     @ fmt_f 4 (py_sin (Fin X_MAX_DEFAULT)),
      plot_x = [], plot_y = [], plot_title = []\<rparr>"

text \<open>
  The three things a user can do. Dragging the slider to another tick of its range stores
  the tick and emits \<open>valueChanged\<close>; confirming the line edit leaves the typed text in
  it and emits \<open>editingFinished\<close>; the button emits \<open>clicked\<close>. An exception that
  leaves a slot is reported by the binding and the event loop goes on with the state as
  the slot left it.
\<close>

definition SetFromSlider :: "int \<Rightarrow> gui \<Rightarrow> gui" where
  "SetFromSlider t s =
     (if bound t = t \<and> t \<noteq> slider s then snd (on_slider_changed t (s\<lparr>slider := t\<rparr>)) else s)"

definition SetFromText :: "string \<Rightarrow> gui \<Rightarrow> gui" where
  "SetFromText raw s = snd (on_input_field_changed (s\<lparr>input_field := raw\<rparr>))"

definition Reset :: "gui \<Rightarrow> gui" where
  "Reset s = snd (on_reset_clicked s)"

datatype event = SliderMoved int | TextEntered string | ResetClicked

fun step :: "gui \<Rightarrow> event \<Rightarrow> gui" where
  "step s (SliderMoved t) = SetFromSlider t s"
| "step s (TextEntered raw) = SetFromText raw s"
| "step s ResetClicked = Reset s"

definition run :: "event list \<Rightarrow> gui" where
  "run evs = foldl step init evs"

subsection \<open>Derived notions used in the proofs\<close>

text \<open>
  \<open>moved b s\<close> is the state the slot leaves when \<open>setValue\<close> has stored the new
  tick \<open>b\<close> and emitted it; \<open>settled v b s\<close> is a state whose every surface shows
  the value \<open>v\<close> with the slider at tick \<open>b\<close>; \<open>refresh\<close> is the pair of calls
  \<open>_update_ui_values(); update_plot()\<close> that ends each handler.
\<close>

definition moved :: "int \<Rightarrow> gui \<Rightarrow> gui" where
  "moved b s = update_plot (set_texts (s\<lparr>slider := b, self_x := Fin (of_int b / 10)\<rparr>))"

definition settled :: "pyfloat \<Rightarrow> int \<Rightarrow> gui \<Rightarrow> gui" where
  "settled v b s = update_plot (set_texts (s\<lparr>self_x := v, slider := b\<rparr>))"

definition refresh :: "gui \<Rightarrow> exn option \<times> gui" where
  "refresh s =
     (case update_ui_values s of
        (Some e, s') \<Rightarrow> (Some e, s')
      | (None, s') \<Rightarrow> (None, update_plot s'))"

text \<open>
  What every state the program reaches satisfies: the value is positive, the slider is
  inside its range, and the slider holds the tick of the value whenever that tick fits a
  C \<open>int\<close>.
\<close>

definition consistent :: "gui \<Rightarrow> bool" where
  "consistent s =
     (py_gt0 (self_x s) \<and> bound (slider s) = slider s \<and>
      (\<forall>r. self_x s = Fin r \<longrightarrow> fits_c_int (trunc (r * 10)) \<longrightarrow>
           slider s = bound (trunc (r * 10))))"

section \<open>Supporting lemmas\<close>

subsection \<open>Bounds on \<open>pi\<close> and the constants\<close>

lemma sin_poly7:
  "\<bar>sin x - (x - x ^ 3 / 6 + x ^ 5 / 120)\<bar> \<le> \<bar>x\<bar> ^ 7 / 5040" for x :: real
proof -
  have "{..<7::nat} = {0, 1, 2, 3, 4, 5, 6}"
    by auto
  then have poly: "(\<Sum>m<7. sin_coeff m * x ^ m) = x - x ^ 3 / 6 + x ^ 5 / 120"
    by (simp add: sin_coeff_def fact_numeral)
  have "(fact 7 :: real) = 5040"
    by (simp add: fact_numeral)
  then have rest: "inverse (fact 7) * \<bar>x\<bar> ^ 7 = \<bar>x\<bar> ^ 7 / 5040"
    by simp
  show ?thesis
    using Maclaurin_sin_bound [of x 7] unfolding poly rest .
qed

lemma pi_lower: "31413 / 10000 < pi"
proof -
  define a :: real where "a = 10471 / 20000"
  have "sin a \<le> (a - a ^ 3 / 6 + a ^ 5 / 120) + \<bar>a\<bar> ^ 7 / 5040"
    using sin_poly7 [of a] by linarith
  also have "\<dots> < 1 / 2"
    by (simp add: a_def power_divide)
  finally have "sin a < sin (pi / 6)"
    by (simp add: sin_30)
  moreover have "- (pi / 2) \<le> a" "a \<le> pi / 2"
    using pi_ge_two by (simp_all add: a_def)
  moreover have "- (pi / 2) \<le> pi / 6" "pi / 6 \<le> pi / 2"
    by simp_all
  ultimately have "a < pi / 6"
    using sin_mono_less_eq [of a "pi / 6"] by blast
  then show ?thesis by (simp add: a_def)
qed

lemma pi_upper: "pi < 31422 / 10000"
proof -
  define b :: real where "b = 5237 / 10000"
  have "(b - b ^ 3 / 6 + b ^ 5 / 120) - \<bar>b\<bar> ^ 7 / 5040 \<le> sin b"
    using sin_poly7 [of b] by linarith
  moreover have "1 / 2 < (b - b ^ 3 / 6 + b ^ 5 / 120) - \<bar>b\<bar> ^ 7 / 5040"
    by (simp add: b_def power_divide)
  ultimately have "sin (pi / 6) < sin b"
    by (simp add: sin_30)
  moreover have "- (pi / 2) \<le> b" "b \<le> pi / 2"
    using pi_ge_two by (simp_all add: b_def)
  moreover have "- (pi / 2) \<le> pi / 6" "pi / 6 \<le> pi / 2"
    by simp_all
  ultimately have "pi / 6 < b"
    using sin_mono_less_eq [of "pi / 6" b] by blast
  then show ?thesis by (simp add: b_def)
qed

lemma trunc_of_int [simp]: "trunc (of_int v) = v"
  by (simp add: trunc_def)

lemma trunc_eqI: "of_int k \<le> r \<Longrightarrow> r < of_int k + 1 \<Longrightarrow> 0 \<le> k \<Longrightarrow> trunc r = k"
  unfolding trunc_def by (simp add: floor_eq_iff)

lemma SLIDER_MAX_eq: "SLIDER_MAX = 251"
  unfolding SLIDER_MAX_def X_MAX_DEFAULT_def SLIDER_SCALE_FACTOR_def
  using pi_lower pi_upper by (intro trunc_eqI) simp_all

lemma default_tick: "trunc (X_MAX_DEFAULT * of_int SLIDER_SCALE_FACTOR) = 125"
  unfolding X_MAX_DEFAULT_def SLIDER_SCALE_FACTOR_def
  using pi_lower pi_upper by (intro trunc_eqI) simp_all

lemma bound_eq: "bound v = max 1 (min 251 v)"
  by (simp add: bound_def SLIDER_MAX_eq)

lemma bound_idem [simp]: "bound (bound v) = bound v"
  by (simp add: bound_def)

lemma bound_range: "1 \<le> bound v" "bound v \<le> 251"
  by (simp_all add: bound_eq)

lemma fits_bound [simp]: "fits_c_int (bound v)"
  using bound_range [of v] by (simp add: fits_c_int_def)

lemma update_plot_keeps [simp]:
  "self_x (update_plot s) = self_x s"
  "slider (update_plot s) = slider s"
  "input_field (update_plot s) = input_field s"
  "result_label (update_plot s) = result_label s"
  by (simp_all add: update_plot_def Let_def)

lemma set_texts_keeps [simp]:
  "self_x (set_texts s) = self_x s"
  "slider (set_texts s) = slider s"
  "plot_x (set_texts s) = plot_x s"
  "plot_y (set_texts s) = plot_y s"
  "plot_title (set_texts s) = plot_title s"
  by (simp_all add: set_texts_def)

subsection \<open>Closed forms of the handlers\<close>

lemma update_ui_values_eq:
  "update_ui_values s =
     (case py_int (times_int (self_x s) SLIDER_SCALE_FACTOR) of
        Inl e \<Rightarrow> (Some e, s)
      | Inr v \<Rightarrow>
          if \<not> fits_c_int v then (Some OverflowError, s)
          else if bound v = slider s then (None, set_texts s)
          else (None, set_texts (moved (bound v) s)))"
proof (cases "py_int (times_int (self_x s) SLIDER_SCALE_FACTOR)")
  case (Inl e)
  then show ?thesis by (simp add: update_ui_values.simps [of s])
next
  case (Inr v)
  have inner: "update_ui_values (s\<lparr>slider := bound v, self_x := Fin (of_int (bound v) / 10)\<rparr>)
      = (None, set_texts (s\<lparr>slider := bound v, self_x := Fin (of_int (bound v) / 10)\<rparr>))"
    by (subst update_ui_values.simps) (simp add: SLIDER_SCALE_FACTOR_def setValue.simps)
  show ?thesis
    using Inr inner
    by (simp add: update_ui_values.simps [of s] setValue.simps [of v s] moved_def
        on_slider_changed.simps [of "bound v"] SLIDER_SCALE_FACTOR_def)
qed

lemma settled_absorb:
  "update_plot (set_texts (settled v b s)) = settled v b s"
  "set_texts (settled v b s) = settled v b s"
  "update_plot (settled v b s) = settled v b s"
  by (simp_all add: settled_def update_plot_def set_texts_def Let_def)

lemma settled_fields [simp]:
  "self_x (settled v b s) = v"
  "slider (settled v b s) = b"
  "input_field (settled v b s) = fmt_f 2 v"
  "result_label (settled v b s) = ''sin('' @ fmt_f 2 v @ '') = '' @ fmt_f 4 (py_sin v)"
  "plot_x (settled v b s) = linspace 0 v 1000"
  "plot_y (settled v b s) = map py_sin (linspace 0 v 1000)"
  "plot_title (settled v b s) = ''sin(x): 0 to '' @ fmt_f 2 v"
  by (simp_all add: settled_def update_plot_def set_texts_def Let_def)

lemma moved_eq: "moved b s = settled (Fin (of_int b / 10)) b s"
proof -
  have "s\<lparr>slider := b, self_x := Fin (of_int b / 10)\<rparr> = s\<lparr>self_x := Fin (of_int b / 10), slider := b\<rparr>"
    by simp
  then show ?thesis
    by (simp only: moved_def settled_def)
qed

lemma refresh_Fin:
  assumes "self_x s = Fin r"
  shows "refresh s =
    (if \<not> fits_c_int (trunc (r * 10)) then (Some OverflowError, s)
     else if bound (trunc (r * 10)) = slider s then (None, settled (Fin r) (slider s) s)
     else (None, settled (Fin (of_int (bound (trunc (r * 10))) / 10)) (bound (trunc (r * 10))) s))"
proof -
  have "s\<lparr>self_x := Fin r, slider := slider s\<rparr> = s"
    using assms by simp
  then have "update_plot (set_texts s) = settled (Fin r) (slider s) s"
    by (simp add: settled_def)
  then show ?thesis
    using assms
    by (simp add: refresh_def update_ui_values_eq SLIDER_SCALE_FACTOR_def moved_eq settled_absorb)
qed

lemma refresh_PInf: "self_x s = PInf \<Longrightarrow> refresh s = (Some OverflowError, s)"
  by (simp add: refresh_def update_ui_values_eq SLIDER_SCALE_FACTOR_def)

lemma on_slider_changed_eq:
  assumes "bound t = t"
  shows "on_slider_changed t s = (None, settled (Fin (of_int t / 10)) t s)"
proof -
  let ?s1 = "s\<lparr>self_x := Fin (of_int t / 10)\<rparr>"
  have "on_slider_changed t s = refresh ?s1"
    by (simp add: on_slider_changed.simps refresh_def SLIDER_SCALE_FACTOR_def)
  also have "\<dots> = (None, settled (Fin (of_int t / 10)) t s)"
    using assms fits_bound [of t]
    by (subst refresh_Fin [where r = "of_int t / 10"]) (auto simp: settled_def)
  finally show ?thesis .
qed

lemma on_reset_clicked_eq: "on_reset_clicked s =
   (if slider s = 125 then (None, settled (Fin X_MAX_DEFAULT) 125 s)
    else (None, settled (Fin (25 / 2)) 125 s))"
proof -
  let ?s1 = "s\<lparr>self_x := Fin X_MAX_DEFAULT\<rparr>"
  have t: "trunc (X_MAX_DEFAULT * 10) = 125"
    using default_tick by (simp add: SLIDER_SCALE_FACTOR_def)
  have b: "bound 125 = 125"
    by (simp add: bound_eq)
  have "on_reset_clicked s = refresh ?s1"
    by (simp add: on_reset_clicked_def refresh_def)
  also have "\<dots> = (if slider s = 125 then (None, settled (Fin X_MAX_DEFAULT) 125 s)
    else (None, settled (Fin (25 / 2)) 125 s))"
    by (subst refresh_Fin [where r = X_MAX_DEFAULT]) (auto simp: t b fits_c_int_def settled_def)
  finally show ?thesis .
qed

lemma py_float_error: "py_float raw = Inl e \<Longrightarrow> e = ValueError"
  by (auto simp: py_float_def split: option.splits prod.splits if_splits)

lemma refresh_no_ValueError:
  "py_gt0 (self_x s) \<Longrightarrow> fst (refresh s) \<noteq> Some ValueError"
  by (cases "self_x s") (simp_all add: refresh_Fin refresh_PInf)

lemma try_block_eq:
  "try_block s =
     (case py_float (input_field s) of
        Inl e \<Rightarrow> (Some e, s)
      | Inr val \<Rightarrow> if py_gt0 val then refresh (s\<lparr>self_x := val\<rparr>) else (None, s))"
  by (simp add: try_block_def refresh_def split: sum.splits)

lemma on_input_invalid:
  assumes "py_float (input_field s) = Inl e"
  shows "on_input_field_changed s = update_ui_values s"
  using assms py_float_error [OF assms]
  by (simp add: on_input_field_changed_def try_block_eq)

lemma on_input_not_positive:
  assumes "py_float (input_field s) = Inr val" "\<not> py_gt0 val"
  shows "on_input_field_changed s = (None, s)"
  using assms by (simp add: on_input_field_changed_def try_block_eq)

lemma on_input_positive:
  assumes "py_float (input_field s) = Inr val" "py_gt0 val"
  shows "on_input_field_changed s = refresh (s\<lparr>self_x := val\<rparr>)"
proof -
  have "fst (refresh (s\<lparr>self_x := val\<rparr>)) \<noteq> Some ValueError"
    using assms(2) by (intro refresh_no_ValueError) simp
  then show ?thesis
    using assms
    by (cases "refresh (s\<lparr>self_x := val\<rparr>)")
       (auto simp: on_input_field_changed_def try_block_eq split: option.splits exn.splits)
qed

subsection \<open>The invariant of reachable states\<close>

lemma consistent_settled_tick:
  "bound b = b \<Longrightarrow> consistent (settled (Fin (of_int b / 10)) b s)"
proof -
  assume b: "bound b = b"
  have "trunc (r * 10) = b" if "of_int b / 10 = r" for r :: real
  proof -
    have "r * 10 = of_int b" using that by auto
    then show ?thesis by simp
  qed
  moreover have "0 < b"
    using bound_range(1) [of b] b by simp
  ultimately show ?thesis
    using b by (auto simp: consistent_def)
qed

lemma consistent_init: "consistent init"
  using pi_lower
  by (simp add: init_def consistent_def default_tick X_MAX_DEFAULT_def SLIDER_SCALE_FACTOR_def)

lemma update_ui_values_consistent:
  assumes "consistent s"
  shows "update_ui_values s = (None, set_texts s) \<or> update_ui_values s = (Some OverflowError, s)"
  using assms
  by (cases "self_x s")
     (auto simp: update_ui_values_eq consistent_def SLIDER_SCALE_FACTOR_def)

lemma consistent_set_texts: "consistent (set_texts s) = consistent s"
  by (simp add: consistent_def)

lemma consistent_refresh:
  assumes "bound (slider s) = slider s" "py_gt0 (self_x s)"
  shows "consistent (snd (refresh s))"
proof (cases "self_x s")
  case (Fin r)
  show ?thesis
    using assms Fin
    by (auto simp: refresh_Fin [OF Fin] consistent_settled_tick) (auto simp: consistent_def)
next
  case PInf
  then show ?thesis using assms by (simp add: refresh_PInf consistent_def)
qed (use assms in simp_all)

lemma consistent_SetFromSlider: "consistent s \<Longrightarrow> consistent (SetFromSlider t s)"
  by (simp add: SetFromSlider_def on_slider_changed_eq consistent_settled_tick)

lemma consistent_Reset: "consistent s \<Longrightarrow> consistent (Reset s)"
proof -
  assume "consistent s"
  have "on_reset_clicked s = refresh (s\<lparr>self_x := Fin X_MAX_DEFAULT\<rparr>)"
    by (simp add: on_reset_clicked_def refresh_def)
  moreover have "consistent (snd (refresh (s\<lparr>self_x := Fin X_MAX_DEFAULT\<rparr>)))"
    using \<open>consistent s\<close> pi_lower
    by (intro consistent_refresh) (simp_all add: consistent_def X_MAX_DEFAULT_def)
  ultimately show ?thesis by (simp add: Reset_def)
qed

lemma consistent_SetFromText:
  assumes "consistent s"
  shows "consistent (SetFromText raw s)"
proof -
  let ?s = "s\<lparr>input_field := raw\<rparr>"
  have c: "consistent ?s"
    using assms by (simp add: consistent_def)
  show ?thesis
  proof (cases "py_float raw")
    case (Inl e)
    then have "on_input_field_changed ?s = update_ui_values ?s"
      by (intro on_input_invalid [where e = e]) simp
    then show ?thesis
      using update_ui_values_consistent [OF c] c
      by (auto simp: SetFromText_def consistent_set_texts)
  next
    case (Inr val)
    show ?thesis
    proof (cases "py_gt0 val")
      case True
      then have "on_input_field_changed ?s = refresh (?s\<lparr>self_x := val\<rparr>)"
        using Inr by (intro on_input_positive) simp_all
      moreover have "consistent (snd (refresh (?s\<lparr>self_x := val\<rparr>)))"
        using True assms by (intro consistent_refresh) (simp_all add: consistent_def)
      ultimately show ?thesis by (simp add: SetFromText_def)
    next
      case False
      then have "on_input_field_changed ?s = (None, ?s)"
        using Inr by (intro on_input_not_positive [where val = val]) simp_all
      then show ?thesis using c by (simp add: SetFromText_def)
    qed
  qed
qed

lemma consistent_step: "consistent s \<Longrightarrow> consistent (step s e)"
  by (cases e) (simp_all add: consistent_SetFromSlider consistent_SetFromText consistent_Reset)

lemma consistent_foldl: "consistent s \<Longrightarrow> consistent (foldl step s evs)"
  by (induction evs arbitrary: s) (simp_all add: consistent_step)

lemma consistent_run: "consistent (run evs)"
  by (simp add: run_def consistent_foldl consistent_init)

subsection \<open>Evaluation at concrete inputs\<close>

lemmas py_float_eval = py_float_def strip_def is_space_def lower_def parse_decimal_def
  not_exp_mark_def parse_mantissa_def parse_exponent_def is_digit_def nat_of_digits_def digit_val_def

lemma digit_chars:
  "digit_char 0 = CHR ''0''" "digit_char 1 = CHR ''1''" "digit_char 2 = CHR ''2''"
  "digit_char 3 = CHR ''3''" "digit_char 4 = CHR ''4''" "digit_char 5 = CHR ''5''"
  "digit_char 6 = CHR ''6''" "digit_char 7 = CHR ''7''" "digit_char 8 = CHR ''8''"
  "digit_char 9 = CHR ''9''" "digit_char (Suc 0) = CHR ''1''"
  by code_simp+

lemmas fmt_eval = fmt_f.simps round_half_even_def show_nat.simps zfill_def digit_chars

lemma init_fields [simp]:
  "self_x init = Fin X_MAX_DEFAULT" "slider init = 125"
  by (simp_all add: init_def default_tick bound_eq)

lemma fmt_default: "fmt_f 2 (Fin X_MAX_DEFAULT) = ''12.57''"
proof -
  have "\<lfloor>X_MAX_DEFAULT * 100\<rfloor> = 1256"
    unfolding X_MAX_DEFAULT_def using pi_lower pi_upper by (simp add: floor_eq_iff)
  moreover have "1 / 2 < X_MAX_DEFAULT * 100 - 1256"
    unfolding X_MAX_DEFAULT_def using pi_lower by simp
  moreover have "0 \<le> X_MAX_DEFAULT"
    by (simp add: X_MAX_DEFAULT_def)
  ultimately have "round_half_even (\<bar>X_MAX_DEFAULT\<bar> * 10 ^ 2) = 1257"
    by (simp add: round_half_even_def)
  then show ?thesis
    using \<open>0 \<le> X_MAX_DEFAULT\<close> by (simp add: fmt_f.simps show_nat.simps zfill_def digit_chars)
qed

lemma input_field_init: "input_field init = ''12.57''"
  by (simp add: init_def fmt_default)

lemma SetFromText_628:
  "SetFromText ''6.28'' init = settled (Fin (31 / 5)) 62 (init\<lparr>input_field := ''6.28''\<rparr>)"
proof -
  let ?s = "init\<lparr>input_field := ''6.28''\<rparr>"
  have "py_float (input_field ?s) = Inr (Fin (157 / 25))"
    by (simp add: py_float_eval)
  then have "on_input_field_changed ?s = refresh (?s\<lparr>self_x := Fin (157 / 25)\<rparr>)"
    by (rule on_input_positive) simp
  also have "\<dots> = (None, settled (Fin (31 / 5)) 62 ?s)"
    by (subst refresh_Fin [where r = "157 / 25"])
       (simp_all add: trunc_def fits_c_int_def bound_eq)
  finally show ?thesis
    by (simp add: SetFromText_def)
qed

lemma SetFromSlider_1: "SetFromSlider 1 init = settled (Fin (1 / 10)) 1 init"
  by (simp add: SetFromSlider_def bound_eq on_slider_changed_eq)

lemma default_not_tick: "Fin X_MAX_DEFAULT \<noteq> Fin (25 / 2)"
  using pi_lower by (simp add: X_MAX_DEFAULT_def)

subsection \<open>The sample grid\<close>

lemma linspace_length: "length (linspace a v 1000) = 1000"
  by (cases v) (simp_all add: linspace.simps)

lemma linspace_nth:
  "i < 1000 \<Longrightarrow> linspace 0 (Fin v) 1000 ! i = Fin (real i * (v / 999))"
  by (simp add: linspace.simps del: upt_rec_numeral)

lemma linspace_hd: "hd (linspace 0 (Fin v) 1000) = Fin 0"
proof -
  have "linspace 0 (Fin v) 1000 \<noteq> []"
    using linspace_length [of 0 "Fin v"] by auto
  then have "hd (linspace 0 (Fin v) 1000) = linspace 0 (Fin v) 1000 ! 0"
    by (rule hd_conv_nth)
  then show ?thesis
    by (simp add: linspace_nth)
qed

lemma linspace_last: "last (linspace 0 (Fin v) 1000) = Fin v"
proof -
  have "linspace 0 (Fin v) 1000 \<noteq> []"
    using linspace_length [of 0 "Fin v"] by auto
  then have "last (linspace 0 (Fin v) 1000) = linspace 0 (Fin v) 1000 ! 999"
    by (simp add: last_conv_nth linspace_length)
  then show ?thesis
    by (simp add: linspace_nth)
qed

lemma plot_fields:
  "plot_x (update_plot s) = linspace 0 (self_x s) 1000"
  "plot_y (update_plot s) = map py_sin (linspace 0 (self_x s) 1000)"
  "plot_title (update_plot s) = ''sin(x): 0 to '' @ fmt_f 2 (self_x s)"
  by (simp_all add: update_plot_def Let_def)

subsection \<open>More evaluation lemmas\<close>

lemma sin_tenth: "9983341 / 100000000 < sin (1 / 10 :: real)" "sin (1 / 10 :: real) < 9983342 / 100000000"
proof -
  have "\<bar>sin (1 / 10 :: real) - (1 / 10 - (1 / 10) ^ 3 / 6 + (1 / 10) ^ 5 / 120)\<bar>
      \<le> \<bar>1 / 10\<bar> ^ 7 / 5040"
    by (rule sin_poly7)
  then have "\<bar>sin (1 / 10 :: real) - 1198001 / 12000000\<bar> \<le> 1 / 50400000000"
    by (simp add: power_divide)
  then show "9983341 / 100000000 < sin (1 / 10 :: real)"
    and "sin (1 / 10 :: real) < 9983342 / 100000000"
    by linarith+
qed

lemma fmt_sin_tenth: "fmt_f 4 (Fin (sin (1 / 10))) = ''0.0998''"
proof -
  have "\<lfloor>sin (1 / 10 :: real) * 10000\<rfloor> = 998"
    using sin_tenth by (simp add: floor_eq_iff)
  moreover have "sin (1 / 10 :: real) * 10000 - 998 < 1 / 2"
    using sin_tenth by simp
  moreover have "0 \<le> sin (1 / 10 :: real)"
    using sin_tenth by simp
  ultimately have "round_half_even (\<bar>sin (1 / 10 :: real)\<bar> * 10 ^ 4) = 998"
    by (simp add: round_half_even_def)
  then show ?thesis
    using \<open>0 \<le> sin (1 / 10 :: real)\<close>
    by (simp add: fmt_f.simps show_nat.simps zfill_def digit_chars)
qed

lemma trunc_magnitude:
  "\<bar>of_int (trunc y)\<bar> \<le> \<bar>y\<bar>" "\<bar>y\<bar> < \<bar>of_int (trunc y)\<bar> + 1"
  unfolding trunc_def by (auto; linarith)+

lemma SetFromText_not_positive:
  assumes "py_float raw = Inr val" and "\<not> py_gt0 val"
  shows "SetFromText raw s = s\<lparr>input_field := raw\<rparr>"
proof -
  have "on_input_field_changed (s\<lparr>input_field := raw\<rparr>) = (None, s\<lparr>input_field := raw\<rparr>)"
    using assms by (intro on_input_not_positive [where val = val]) simp_all
  then show ?thesis by (simp add: SetFromText_def)
qed

lemma SetFromSlider_out_of_range: "t < 1 \<Longrightarrow> SetFromSlider t s = s"
  by (simp add: SetFromSlider_def bound_eq)

lemma SetFromText_abc: "input_field (SetFromText ''abc'' init) = ''12.57''"
proof -
  let ?s = "init\<lparr>input_field := ''abc''\<rparr>"
  have "py_float (input_field ?s) = Inl ValueError"
    by (simp add: py_float_eval)
  then have "on_input_field_changed ?s = update_ui_values ?s"
    by (rule on_input_invalid)
  also have "\<dots> = (None, set_texts ?s)"
    using default_tick
    by (simp add: update_ui_values_eq SLIDER_SCALE_FACTOR_def fits_c_int_def bound_eq)
  finally show ?thesis
    by (simp add: SetFromText_def set_texts_def fmt_default)
qed

section \<open>The claims\<close>

text \<open>
  Claim C1: text that is not a number, or that parses to a number that is not positive,
  leaves the value as it was and puts the formatted old value back into the line edit.

  The handler reverts the display only in its \<open>except ValueError\<close> clause. Text that
  parses to a non-positive number fails the test \<open>val > 0\<close>, which has no other branch:
  the value is kept, and the rejected text stays in the field. From the start-up state the
  text \<open>-1\<close> leaves \<open>-1\<close> in the field, while the value formats as \<open>12.57\<close>;
  the text \<open>abc\<close>, which takes the \<open>except\<close> clause, is replaced by \<open>12.57\<close>.
\<close>

theorem nonpositive_text_left_in_field:
  "self_x (SetFromText ''-1'' init) = self_x init \<and>
   input_field (SetFromText ''-1'' init) = ''-1'' \<and>
   fmt_f 2 (self_x init) = ''12.57'' \<and>
   input_field (SetFromText ''abc'' init) = ''12.57''"
proof -
  have "py_float (input_field (init\<lparr>input_field := ''-1''\<rparr>)) = Inr (Fin (- 1))"
    by (simp add: py_float_eval)
  then have "on_input_field_changed (init\<lparr>input_field := ''-1''\<rparr>)
      = (None, init\<lparr>input_field := ''-1''\<rparr>)"
    by (rule on_input_not_positive) simp
  then have "SetFromText ''-1'' init = init\<lparr>input_field := ''-1''\<rparr>"
    by (simp add: SetFromText_def)
  then show ?thesis
    by (simp add: fmt_default SetFromText_abc)
qed

text \<open>
  Claim C2: after any sequence of slider moves, text entries and resets the value is
  positive; an update that would make it non-positive is rejected and the value kept.

  \<open>run evs\<close> is the state after the events \<open>evs\<close> from start-up. Text that parses to
  a number that is not positive leaves the value alone, and so does a slider tick below 1,
  which the slider's range excludes.
\<close>

theorem value_stays_positive:
  "py_gt0 (self_x (run evs)) \<and>
   (\<forall>raw val. py_float raw = Inr val \<and> \<not> py_gt0 val \<longrightarrow>
      self_x (SetFromText raw (run evs)) = self_x (run evs)) \<and>
   (\<forall>t. t < 1 \<longrightarrow> self_x (SetFromSlider t (run evs)) = self_x (run evs))"
  using consistent_run [of evs]
  by (auto simp: consistent_def SetFromText_not_positive SetFromSlider_out_of_range)

theorem value_stays_positive_witness:
  "py_float ''0'' = Inr (Fin 0) \<and> \<not> py_gt0 (Fin 0) \<and> (0::int) < 1 \<and>
   self_x (run [SliderMoved 1, TextEntered ''-5'']) = Fin (1 / 10) \<and>
   py_gt0 (self_x (run [SliderMoved 1, TextEntered ''-5''])) \<and>
   self_x (SetFromText ''0'' (run [SliderMoved 1, TextEntered ''-5''])) = Fin (1 / 10) \<and>
   self_x (SetFromSlider 0 (run [SliderMoved 1, TextEntered ''-5''])) = Fin (1 / 10)"
proof -
  have p0: "py_float ''0'' = Inr (Fin 0)"
    by (simp add: py_float_eval)
  have p5: "py_float ''-5'' = Inr (Fin (- 5))"
    by (simp add: py_float_eval)
  have "run [SliderMoved 1, TextEntered ''-5''] = SetFromText ''-5'' (SetFromSlider 1 init)"
    by (simp add: run_def)
  also have "\<dots> = (SetFromSlider 1 init)\<lparr>input_field := ''-5''\<rparr>"
    using p5 by (rule SetFromText_not_positive) simp
  finally have r: "self_x (run [SliderMoved 1, TextEntered ''-5'']) = Fin (1 / 10)"
    by (simp add: SetFromSlider_1)
  show ?thesis
    using value_stays_positive [of "[SliderMoved 1, TextEntered ''-5'']"] p0 r
    by auto
qed

text \<open>
  Claim C3: for every slider tick \<open>t\<close> from 1 to \<open>SLIDER_MAX\<close>, after the slider
  handler has run the value is \<open>t / 10\<close> and the label shows the sine of that value to
  four decimals; for tick 1 the value is 0.1 and the plot runs from 0 to 0.1.

  The theorem is about \<open>_on_slider_changed\<close> from any state, wherever the slider stood
  before. The plotted interval is given by the first and the last sample.
\<close>

theorem slider_tick_sets_value:
  assumes "1 \<le> t" and "t \<le> SLIDER_MAX"
  shows "fst (on_slider_changed t s) = None \<and>
    self_x (snd (on_slider_changed t s)) = Fin (of_int t / of_int SLIDER_SCALE_FACTOR) \<and>
    result_label (snd (on_slider_changed t s)) =
      ''sin('' @ fmt_f 2 (Fin (of_int t / 10)) @ '') = '' @ fmt_f 4 (Fin (sin (of_int t / 10))) \<and>
    hd (plot_x (snd (on_slider_changed t s))) = Fin 0 \<and>
    last (plot_x (snd (on_slider_changed t s))) = Fin (of_int t / 10)"
proof -
  have "bound t = t"
    using assms by (simp add: bound_def)
  then have "on_slider_changed t s = (None, settled (Fin (of_int t / 10)) t s)"
    by (rule on_slider_changed_eq)
  then show ?thesis
    by (simp add: SLIDER_SCALE_FACTOR_def linspace_hd linspace_last)
qed

theorem slider_tick_sets_value_witness:
  "(1::int) \<le> 1 \<and> 1 \<le> SLIDER_MAX \<and>
   fst (on_slider_changed 1 init) = None \<and>
   self_x (snd (on_slider_changed 1 init)) = Fin (1 / 10) \<and>
   result_label (snd (on_slider_changed 1 init)) = ''sin(0.10) = 0.0998'' \<and>
   hd (plot_x (snd (on_slider_changed 1 init))) = Fin 0 \<and>
   last (plot_x (snd (on_slider_changed 1 init))) = Fin (1 / 10)"
proof -
  have h: "(1::int) \<le> 1" "1 \<le> SLIDER_MAX"
    by (simp_all add: SLIDER_MAX_eq)
  have "fmt_f 2 (Fin (1 / 10)) = ''0.10''"
    by (simp add: fmt_eval)
  then show ?thesis
    using slider_tick_sets_value [OF h, of init] h fmt_sin_tenth
    by (simp add: SLIDER_SCALE_FACTOR_def)
qed

text \<open>
  Claim C4: after text that parses to a positive number \<open>v\<close>, the stored value is
  \<open>v\<close>; for the text \<open>6.28\<close> the value is 6.28 and the label reads
  \<open>sin(6.28) = -0.0032\<close>.

  The handler stores 6.28 and then calls \<open>_update_ui_values\<close>, whose \<open>setValue(62)\<close>
  moves the slider from tick 125 and so emits \<open>valueChanged(62)\<close>; the slot
  \<open>_on_slider_changed\<close> overwrites the value with 62 / 10. From the start-up state the
  value ends as 6.2, the field as \<open>6.20\<close>, and the label starts with \<open>sin(6.20)\<close>.
\<close>

theorem typed_value_replaced_by_tick:
  "self_x (SetFromText ''6.28'' init) = Fin (31 / 5) \<and>
   input_field (SetFromText ''6.28'' init) = ''6.20'' \<and>
   take 9 (result_label (SetFromText ''6.28'' init)) = ''sin(6.20)''"
proof -
  have "fmt_f 2 (Fin (31 / 5)) = ''6.20''"
    by (simp add: fmt_eval)
  then show ?thesis
    by (simp add: SetFromText_628)
qed

text \<open>
  Claim C5: from every reachable state, Reset succeeds and sets the value to the default
  \<open>4 * pi\<close>.

  Reset stores the default and then calls \<open>_update_ui_values\<close>; when the slider is not
  at tick 125 already, \<open>setValue(125)\<close> emits \<open>valueChanged(125)\<close> and the slot
  overwrites the value with 125 / 10. After the slider has been dragged to tick 1, Reset
  leaves the value 12.5, which is not \<open>4 * pi\<close>.
\<close>

theorem reset_after_slider_gives_tick_value:
  "self_x (Reset (SetFromSlider 1 init)) = Fin (25 / 2) \<and> Fin (25 / 2) \<noteq> Fin X_MAX_DEFAULT"
  using default_not_tick by (simp add: Reset_def on_reset_clicked_eq SetFromSlider_1)

text \<open>
  Claim C6: for every positive value, \<open>update_plot\<close> produces exactly 1000 evenly
  spaced samples from 0 to the value, plots the sine of each of them, and titles the plot
  \<open>sin(x): 0 to\<close> followed by the value to two decimals.
\<close>

theorem plot_samples:
  assumes "self_x s = Fin v" and "0 < v"
  shows "length (plot_x (update_plot s)) = 1000 \<and>
    length (plot_y (update_plot s)) = 1000 \<and>
    (\<forall>i<1000. plot_x (update_plot s) ! i = Fin (real i * (v / 999)) \<and>
               plot_y (update_plot s) ! i = Fin (sin (real i * (v / 999)))) \<and>
    plot_title (update_plot s) = ''sin(x): 0 to '' @ fmt_f 2 (Fin v)"
  using assms by (simp add: plot_fields linspace_length linspace_nth)

theorem plot_samples_witness:
  "self_x (SetFromSlider 1 init) = Fin (1 / 10) \<and> (0::real) < 1 / 10 \<and>
   length (plot_x (update_plot (SetFromSlider 1 init))) = 1000 \<and>
   plot_x (update_plot (SetFromSlider 1 init)) ! 0 = Fin 0 \<and>
   plot_x (update_plot (SetFromSlider 1 init)) ! 999 = Fin (1 / 10) \<and>
   plot_y (update_plot (SetFromSlider 1 init)) ! 999 = Fin (sin (1 / 10)) \<and>
   plot_title (update_plot (SetFromSlider 1 init)) = ''sin(x): 0 to 0.10''"
proof -
  have h: "self_x (SetFromSlider 1 init) = Fin (1 / 10)" "(0::real) < 1 / 10"
    by (simp_all add: SetFromSlider_1)
  have "fmt_f 2 (Fin (1 / 10)) = ''0.10''"
    by (simp add: fmt_eval)
  then show ?thesis
    using plot_samples [OF h] h by simp
qed

text \<open>
  Claim C8: Reset twice in a row yields the same state as Reset once.

  After the slider has been dragged to tick 1, the first Reset moves the slider to tick
  125 and ends with the value 12.5 (see C5). The second Reset finds the slider at 125, so
  nothing is emitted and the value stays \<open>4 * pi\<close>: the two states differ.
\<close>

theorem second_reset_changes_state:
  "self_x (Reset (SetFromSlider 1 init)) = Fin (25 / 2) \<and>
   self_x (Reset (Reset (SetFromSlider 1 init))) = Fin X_MAX_DEFAULT \<and>
   Reset (Reset (SetFromSlider 1 init)) \<noteq> Reset (SetFromSlider 1 init)"
proof -
  have 1: "self_x (Reset (SetFromSlider 1 init)) = Fin (25 / 2)"
    by (simp add: Reset_def on_reset_clicked_eq SetFromSlider_1)
  have 2: "self_x (Reset (Reset (SetFromSlider 1 init))) = Fin X_MAX_DEFAULT"
    by (simp add: Reset_def on_reset_clicked_eq SetFromSlider_1)
  from 1 2 default_not_tick show ?thesis by auto
qed

text \<open>
  Claim C9: for every positive value the last of the 1000 samples is the value itself, so
  the sine at the right end of the curve is the sine that the label shows.
\<close>

theorem curve_endpoint_matches_label:
  assumes "self_x s = Fin v" and "0 < v"
  shows "last (plot_x (update_plot s)) = Fin v \<and>
    last (plot_y (update_plot s)) = Fin (sin v) \<and>
    result_label (set_texts s) =
      ''sin('' @ fmt_f 2 (Fin v) @ '') = '' @ fmt_f 4 (last (plot_y (update_plot s)))"
proof -
  have ne: "linspace 0 (Fin v) 1000 \<noteq> []"
    using linspace_length [of 0 "Fin v"] by auto
  then have "last (map py_sin (linspace 0 (Fin v) 1000)) = py_sin (last (linspace 0 (Fin v) 1000))"
    by (rule last_map)
  then show ?thesis
    using assms by (simp add: plot_fields linspace_last set_texts_def)
qed

theorem curve_endpoint_matches_label_witness:
  "self_x (SetFromSlider 1 init) = Fin (1 / 10) \<and> (0::real) < 1 / 10 \<and>
   last (plot_x (update_plot (SetFromSlider 1 init))) = Fin (1 / 10) \<and>
   last (plot_y (update_plot (SetFromSlider 1 init))) = Fin (sin (1 / 10)) \<and>
   result_label (set_texts (SetFromSlider 1 init)) = ''sin(0.10) = 0.0998''"
proof -
  have h: "self_x (SetFromSlider 1 init) = Fin (1 / 10)" "(0::real) < 1 / 10"
    by (simp_all add: SetFromSlider_1)
  have "fmt_f 2 (Fin (1 / 10)) = ''0.10''"
    by (simp add: fmt_eval)
  then show ?thesis
    using curve_endpoint_matches_label [OF h] h fmt_sin_tenth by simp
qed

text \<open>
  Claim C10: whenever the display is refreshed, the slider is asked for the tick
  \<open>int(value * 10)\<close>, which drops the fraction instead of rounding to the nearest tick,
  and only then is the tick confined to the slider's range; the values 6.28 and 6.29 both
  give tick 62.

  The tick lies within one unit of \<open>value * 10\<close> on the side of zero. The witness is
  the value 6.29, whose nearest tick would be 63.
\<close>

theorem refresh_tick_is_truncation:
  assumes "self_x s = Fin r"
    and "fits_c_int (trunc (r * of_int SLIDER_SCALE_FACTOR))"
  shows "slider (snd (update_ui_values s)) = bound (trunc (r * of_int SLIDER_SCALE_FACTOR)) \<and>
    \<bar>of_int (trunc (r * of_int SLIDER_SCALE_FACTOR))\<bar> \<le> \<bar>r * of_int SLIDER_SCALE_FACTOR\<bar> \<and>
    \<bar>r * of_int SLIDER_SCALE_FACTOR\<bar> < \<bar>of_int (trunc (r * of_int SLIDER_SCALE_FACTOR))\<bar> + 1"
  using assms
  by (simp add: update_ui_values_eq moved_eq trunc_magnitude)

theorem refresh_tick_is_truncation_witness:
  "self_x (init\<lparr>self_x := Fin (629 / 100)\<rparr>) = Fin (629 / 100) \<and>
   fits_c_int (trunc (629 / 100 * of_int SLIDER_SCALE_FACTOR)) \<and>
   trunc (629 / 100 * of_int SLIDER_SCALE_FACTOR) = 62 \<and>
   slider (snd (update_ui_values (init\<lparr>self_x := Fin (629 / 100)\<rparr>))) = 62"
proof -
  have t: "trunc (629 / 100 * of_int SLIDER_SCALE_FACTOR) = 62"
    by (simp add: trunc_def SLIDER_SCALE_FACTOR_def)
  have h1: "self_x (init\<lparr>self_x := Fin (629 / 100)\<rparr>) = Fin (629 / 100)"
    by simp
  have h2: "fits_c_int (trunc (629 / 100 * of_int SLIDER_SCALE_FACTOR))"
    unfolding t by (simp add: fits_c_int_def)
  have "bound 62 = 62"
    by (simp add: bound_eq)
  then show ?thesis
    using refresh_tick_is_truncation [OF h1 h2] h1 h2 unfolding t by simp
qed

end
